theory Spec2Isabelle
  imports Complex_Main "HOL-Library.AList"
begin

section \<open>Python values\<close>

text \<open>
  The cache of \<^verbatim>\<open>async_rediscache/types/cache.py\<close> moves Python objects in and out of a
  Redis hash. A Python float is an IEEE 754 binary64 number: \<open>Finite s m e\<close> is
  \<open>(-1)\<^sup>s * m * 2\<^sup>e\<close>, well formed when \<open>m < 2\<^sup>5\<^sup>3\<close>, \<open>-1074 \<le> e \<le> 971\<close> and
  \<open>2\<^sup>5\<^sup>2 \<le> m\<close> unless \<open>e = -1074\<close>. Python integers are unbounded.
\<close>

datatype pyfloat = Finite bool nat int | Infinity bool | NaN

datatype pyval = PNone | PBool bool | PInt int | PFloat pyfloat | PStr string

text \<open>
  The exceptions that can leave a cache operation. \<^verbatim>\<open>cache.py\<close> raises \<open>KeyError\<close> and
  \<open>TypeError\<close> itself (the specification calls them MissingKeyError and
  UnsupportedTypeError); \<open>OverflowError\<close> comes from Python's arithmetic and
  \<open>CorruptDataError\<close> from the type codec.
\<close>

datatype error = KeyError | TypeError | OverflowError | CorruptDataError


subsection \<open>Integer arithmetic on floats\<close>

fun bit_length :: "nat \<Rightarrow> nat" where
  "bit_length n = (if n = 0 then 0 else Suc (bit_length (n div 2)))"

declare bit_length.simps [simp del]

text \<open>
  \<open>round_float s n e\<close> is the binary64 number nearest to \<open>(-1)\<^sup>s * n * 2\<^sup>e\<close>, ties going
  to the even mantissa, and an infinity when the result is out of range.
\<close>

definition round_float :: "bool \<Rightarrow> nat \<Rightarrow> int \<Rightarrow> pyfloat" where
  "round_float s n e =
     (if n = 0 then Finite s 0 (- 1074)
      else
        let e' = max (e + int (bit_length n) - 53) (- 1074) in
        if e' \<le> e then
          (if 971 < e' then Infinity s else Finite s (n * 2 ^ nat (e - e')) e')
        else
          let sh = nat (e' - e);
              q = n div 2 ^ sh;
              r = n mod 2 ^ sh;
              half = 2 ^ (sh - 1);
              m = (if half < r \<or> (r = half \<and> odd q) then q + 1 else q);
              e'' = (if m = 2 ^ 53 then e' + 1 else e');
              m' = (if m = 2 ^ 53 then 2 ^ 52 else m)
          in if 971 < e'' then Infinity s else Finite s m' e'')"

definition float_of_int :: "int \<Rightarrow> pyfloat option" where
  \<comment> \<open>Python's \<^verbatim>\<open>float(i)\<close>; \<open>None\<close> is OverflowError (int too large to convert to float).\<close>
  "float_of_int i =
     (case round_float (i < 0) (nat \<bar>i\<bar>) 0 of
        Infinity _ \<Rightarrow> None
      | f \<Rightarrow> Some f)"

definition signed_mantissa :: "bool \<Rightarrow> nat \<Rightarrow> int" where
  "signed_mantissa s m = (if s then - int m else int m)"

fun float_add :: "pyfloat \<Rightarrow> pyfloat \<Rightarrow> pyfloat" where
  "float_add NaN _ = NaN"
| "float_add _ NaN = NaN"
| "float_add (Infinity a) (Infinity b) = (if a = b then Infinity a else NaN)"
| "float_add (Infinity a) (Finite _ _ _) = Infinity a"
| "float_add (Finite _ _ _) (Infinity b) = Infinity b"
| "float_add (Finite s1 m1 e1) (Finite s2 m2 e2) =
     (let e = min e1 e2;
          t = signed_mantissa s1 m1 * 2 ^ nat (e1 - e) + signed_mantissa s2 m2 * 2 ^ nat (e2 - e)
      in if t = 0 then Finite (s1 \<and> s2) 0 (- 1074)
         else round_float (t < 0) (nat \<bar>t\<bar>) e)"

fun float_neg :: "pyfloat \<Rightarrow> pyfloat" where
  "float_neg (Finite s m e) = Finite (\<not> s) m e"
| "float_neg (Infinity s) = Infinity (\<not> s)"
| "float_neg NaN = NaN"

fun float_value :: "pyfloat \<Rightarrow> rat option" where
  "float_value (Finite s m e) =
     Some ((if s then - 1 else 1) * of_nat m * (if 0 \<le> e then 2 ^ nat e else 1 / 2 ^ nat (- e)))"
| "float_value (Infinity _) = None"
| "float_value NaN = None"

subsection \<open>Python's numeric operators\<close>

datatype num = NInt int | NFloat pyfloat

fun as_num :: "pyval \<Rightarrow> num option" where
  \<comment> \<open>\<^verbatim>\<open>bool\<close> is a subclass of \<^verbatim>\<open>int\<close>: \<^verbatim>\<open>True\<close> counts as 1 and \<^verbatim>\<open>False\<close> as 0.\<close>
  "as_num (PBool b) = Some (NInt (if b then 1 else 0))"
| "as_num (PInt i) = Some (NInt i)"
| "as_num (PFloat f) = Some (NFloat f)"
| "as_num _ = None"

fun num_add :: "num \<Rightarrow> num \<Rightarrow> error + pyval" where
  "num_add (NInt i) (NInt j) = Inr (PInt (i + j))"
| "num_add (NInt i) (NFloat b) =
     (case float_of_int i of None \<Rightarrow> Inl OverflowError | Some a \<Rightarrow> Inr (PFloat (float_add a b)))"
| "num_add (NFloat a) (NInt j) =
     (case float_of_int j of None \<Rightarrow> Inl OverflowError | Some b \<Rightarrow> Inr (PFloat (float_add a b)))"
| "num_add (NFloat a) (NFloat b) = Inr (PFloat (float_add a b))"

definition py_add :: "pyval \<Rightarrow> pyval \<Rightarrow> error + pyval" where
  \<comment> \<open>\<^verbatim>\<open>x + y\<close>\<close>
  "py_add x y =
     (case (as_num x, as_num y) of
        (Some a, Some b) \<Rightarrow> num_add a b
      | _ \<Rightarrow> (case (x, y) of (PStr a, PStr b) \<Rightarrow> Inr (PStr (a @ b)) | _ \<Rightarrow> Inl TypeError))"

fun num_neg :: "num \<Rightarrow> pyval" where
  "num_neg (NInt i) = PInt (- i)"
| "num_neg (NFloat a) = PFloat (float_neg a)"

definition py_neg :: "pyval \<Rightarrow> error + pyval" where
  \<comment> \<open>\<^verbatim>\<open>-x\<close>\<close>
  "py_neg x = (case as_num x of Some n \<Rightarrow> Inr (num_neg n) | None \<Rightarrow> Inl TypeError)"

fun isinstance_int :: "pyval \<Rightarrow> bool" where
  \<comment> \<open>\<^verbatim>\<open>isinstance(x, int)\<close> holds for a bool too.\<close>
  "isinstance_int (PInt _) = True"
| "isinstance_int (PBool _) = True"
| "isinstance_int _ = False"

fun isinstance_float :: "pyval \<Rightarrow> bool" where
  "isinstance_float (PFloat _) = True"
| "isinstance_float _ = False"

section \<open>The type codec\<close>

subsection \<open>Decimal text of integers\<close>

definition digit_char :: "nat \<Rightarrow> char" where
  "digit_char d = ''0123456789'' ! d"

definition digit_val :: "char \<Rightarrow> nat option" where
  "digit_val c = map_of (zip ''0123456789'' [0, 1, 2, 3, 4, 5, 6, 7, 8, 9]) c"

fun show_nat :: "nat \<Rightarrow> string" where
  "show_nat n = (if n < 10 then [digit_char n] else show_nat (n div 10) @ [digit_char (n mod 10)])"

declare show_nat.simps [simp del]

definition show_int :: "int \<Rightarrow> string" where
  \<comment> \<open>\<^verbatim>\<open>str(i)\<close>\<close>
  "show_int i = (if i < 0 then CHR ''-'' # show_nat (nat (- i)) else show_nat (nat i))"

fun parse_digits :: "string \<Rightarrow> nat \<Rightarrow> nat option" where
  "parse_digits [] acc = Some acc"
| "parse_digits (c # cs) acc =
     (case digit_val c of None \<Rightarrow> None | Some d \<Rightarrow> parse_digits cs (10 * acc + d))"

definition parse_nat :: "string \<Rightarrow> nat option" where
  "parse_nat s = (if s = [] then None else parse_digits s 0)"

definition parse_int :: "string \<Rightarrow> int option" where
  "parse_int s =
     (case s of
        [] \<Rightarrow> None
      | c # cs \<Rightarrow>
          if c = CHR ''-'' then map_option (\<lambda>n. - int n) (parse_nat cs)
          else map_option int (parse_nat s))"

subsection \<open>Text of floats\<close>

text \<open>
  Python's \<^verbatim>\<open>str(x)\<close> of a float and \<^verbatim>\<open>float(s)\<close> of a string are builtins of the
  language, not code of the repository. They are parameters of the model; \<open>None\<close> from
  \<open>float_of_str\<close> is Python's ValueError.
\<close>

record float_text =
  float_str :: "pyfloat \<Rightarrow> string"
  float_of_str :: "string \<Rightarrow> pyfloat option"

subsection \<open>Tagged strings\<close>

fun strip_prefix :: "string \<Rightarrow> string \<Rightarrow> string option" where
  \<comment> \<open>\<^verbatim>\<open>s[len(p):]\<close> when \<^verbatim>\<open>s.startswith(p)\<close>\<close>
  "strip_prefix [] s = Some s"
| "strip_prefix (p # ps) [] = None"
| "strip_prefix (p # ps) (c # cs) = (if p = c then strip_prefix ps cs else None)"

text \<open>
  Modelled from the spec: the type codec of \<^verbatim>\<open>async_rediscache/types/base.py\<close>
  (\<^verbatim>\<open>_key_to_typestring\<close>, \<^verbatim>\<open>_value_to_typestring\<close>, \<^verbatim>\<open>_key_from_typestring\<close>,
  \<^verbatim>\<open>_value_from_typestring\<close>, \<^verbatim>\<open>_dict_to_typestring\<close>, \<^verbatim>\<open>_dict_from_typestring\<close>) is
  not among the sources. Section 4.1 and section 6 of the specification fix it: a key
  is a string or an integer, a value a string, an integer, a float or a boolean; each is
  stored as a tag per type (\<^verbatim>\<open>STRING:\<close>, \<^verbatim>\<open>INT:\<close>, \<^verbatim>\<open>FLOAT:\<close>, \<^verbatim>\<open>BOOL:\<close>) followed
  by its textual form; encoding anything else fails with UnsupportedTypeError (the
  \<open>TypeError\<close> of \<^verbatim>\<open>cache.py\<close>), decoding a string without a known tag fails with
  CorruptDataError. A known tag followed by text that is not the textual form of a value
  of that type is reported as CorruptDataError as well.
\<close>

fun key_to_typestring :: "pyval \<Rightarrow> error + string" where
  "key_to_typestring (PStr s) = Inr (''STRING:'' @ s)"
| "key_to_typestring (PInt i) = Inr (''INT:'' @ show_int i)"
| "key_to_typestring _ = Inl TypeError"

fun value_to_typestring :: "float_text \<Rightarrow> pyval \<Rightarrow> error + string" where
  "value_to_typestring ft (PStr s) = Inr (''STRING:'' @ s)"
| "value_to_typestring ft (PInt i) = Inr (''INT:'' @ show_int i)"
| "value_to_typestring ft (PFloat x) = Inr (''FLOAT:'' @ float_str ft x)"
| "value_to_typestring ft (PBool b) = Inr (''BOOL:'' @ (if b then ''True'' else ''False''))"
| "value_to_typestring ft PNone = Inl TypeError"

definition int_from_text :: "string \<Rightarrow> error + pyval" where
  "int_from_text t = (case parse_int t of None \<Rightarrow> Inl CorruptDataError | Some i \<Rightarrow> Inr (PInt i))"

definition float_from_text :: "float_text \<Rightarrow> string \<Rightarrow> error + pyval" where
  "float_from_text ft t =
     (case float_of_str ft t of None \<Rightarrow> Inl CorruptDataError | Some x \<Rightarrow> Inr (PFloat x))"

definition bool_from_text :: "string \<Rightarrow> error + pyval" where
  "bool_from_text t =
     (if t = ''True'' then Inr (PBool True)
      else if t = ''False'' then Inr (PBool False)
      else Inl CorruptDataError)"

definition key_from_typestring :: "string \<Rightarrow> error + pyval" where
  "key_from_typestring s =
     (case strip_prefix ''STRING:'' s of
        Some t \<Rightarrow> Inr (PStr t)
      | None \<Rightarrow>
          (case strip_prefix ''INT:'' s of
             Some t \<Rightarrow> int_from_text t
           | None \<Rightarrow> Inl CorruptDataError))"

definition value_from_typestring :: "float_text \<Rightarrow> string \<Rightarrow> error + pyval" where
  "value_from_typestring ft s =
     (case strip_prefix ''STRING:'' s of
        Some t \<Rightarrow> Inr (PStr t)
      | None \<Rightarrow>
          (case strip_prefix ''INT:'' s of
             Some t \<Rightarrow> int_from_text t
           | None \<Rightarrow>
               (case strip_prefix ''FLOAT:'' s of
                  Some t \<Rightarrow> float_from_text ft t
                | None \<Rightarrow>
                    (case strip_prefix ''BOOL:'' s of
                       Some t \<Rightarrow> bool_from_text t
                     | None \<Rightarrow> Inl CorruptDataError))))"





section \<open>The Redis connection\<close>

text \<open>
  The store is an external collaborator. Its state maps the name of every hash to the
  fields of that hash, in insertion order; a name that holds no hash has no fields. Each
  command below is the Redis command of the same name as the source calls it on the
  connection, with the reply the source reads. The connection is taken to be available:
  connectivity errors are outside the model.
\<close>

type_synonym redis = "string \<Rightarrow> (string \<times> string) list"

definition hset :: "redis \<Rightarrow> string \<Rightarrow> string \<Rightarrow> string \<Rightarrow> redis" where
  "hset s ns k v = s(ns := AList.update k v (s ns))"

definition hget :: "redis \<Rightarrow> string \<Rightarrow> string \<Rightarrow> string option" where
  "hget s ns k = map_of (s ns) k"

definition hdel :: "redis \<Rightarrow> string \<Rightarrow> string \<Rightarrow> int \<times> redis" where
  \<comment> \<open>The reply is the number of fields removed.\<close>
  "hdel s ns k =
     ((case map_of (s ns) k of None \<Rightarrow> 0 | Some _ \<Rightarrow> 1), s(ns := AList.delete k (s ns)))"

definition hexists :: "redis \<Rightarrow> string \<Rightarrow> string \<Rightarrow> bool" where
  "hexists s ns k = (case map_of (s ns) k of None \<Rightarrow> False | Some _ \<Rightarrow> True)"


definition hlen :: "redis \<Rightarrow> string \<Rightarrow> int" where
  "hlen s ns = int (length (s ns))"


definition redis_delete :: "redis \<Rightarrow> string \<Rightarrow> redis" where
  \<comment> \<open>\<^verbatim>\<open>connection.delete(key)\<close>: DEL removes the whole hash.\<close>
  "redis_delete s ns = s(ns := [])"

definition no_hashes :: redis where
  \<comment> \<open>a store that holds no hash\<close>
  "no_hashes = (\<lambda>_. [])"

section \<open>RedisCache\<close>

text \<open>
  A cache is bound to one namespace, the name of its hash (the attribute
  \<^verbatim>\<open>_increment_lock\<close> set by the constructor is never read). Every method takes the
  state of the store and returns the value or the exception of the call together with
  the state it leaves. The decorator \<^verbatim>\<open>namespace_lock\<close> of \<^verbatim>\<open>base.py\<close> makes the calls
  on one namespace run one after the other; a call that runs alone is the decorated
  method itself, with or without \<^verbatim>\<open>acquire_lock=False\<close>.
\<close>

record RedisCache =
  namespace :: string

type_synonym 'a result = "(error + 'a) \<times> redis"

definition RedisCache_set :: "float_text \<Rightarrow> RedisCache \<Rightarrow> pyval \<Rightarrow> pyval \<Rightarrow> redis \<Rightarrow> pyval result" where
  "RedisCache_set ft c key val s =
     (case key_to_typestring key of
        Inl e \<Rightarrow> (Inl e, s)
      | Inr k \<Rightarrow>
          (case value_to_typestring ft val of
             Inl e \<Rightarrow> (Inl e, s)
           | Inr v \<Rightarrow> (Inr PNone, hset s (namespace c) k v)))"

definition RedisCache_get :: "float_text \<Rightarrow> RedisCache \<Rightarrow> pyval \<Rightarrow> pyval \<Rightarrow> redis \<Rightarrow> pyval result" where
  "RedisCache_get ft c key dflt s =
     (case key_to_typestring key of
        Inl e \<Rightarrow> (Inl e, s)
      | Inr k \<Rightarrow>
          (case hget s (namespace c) k of
             None \<Rightarrow> (Inr dflt, s)
           | Some v \<Rightarrow> (value_from_typestring ft v, s)))"

definition RedisCache_delete :: "RedisCache \<Rightarrow> pyval \<Rightarrow> redis \<Rightarrow> pyval result" where
  \<comment> \<open>The method returns what \<^verbatim>\<open>connection.hdel\<close> replies.\<close>
  "RedisCache_delete c key s =
     (case key_to_typestring key of
        Inl e \<Rightarrow> (Inl e, s)
      | Inr k \<Rightarrow> (case hdel s (namespace c) k of (n, s') \<Rightarrow> (Inr (PInt n), s')))"

definition RedisCache_contains :: "RedisCache \<Rightarrow> pyval \<Rightarrow> redis \<Rightarrow> pyval result" where
  "RedisCache_contains c key s =
     (case key_to_typestring key of
        Inl e \<Rightarrow> (Inl e, s)
      | Inr k \<Rightarrow> (Inr (PBool (hexists s (namespace c) k)), s))"


definition RedisCache_length :: "RedisCache \<Rightarrow> redis \<Rightarrow> pyval result" where
  "RedisCache_length c s = (Inr (PInt (hlen s (namespace c))), s)"


definition RedisCache_clear :: "RedisCache \<Rightarrow> redis \<Rightarrow> pyval result" where
  "RedisCache_clear c s = (Inr PNone, redis_delete s (namespace c))"

definition RedisCache_pop :: "float_text \<Rightarrow> RedisCache \<Rightarrow> pyval \<Rightarrow> pyval \<Rightarrow> redis \<Rightarrow> pyval result" where
  "RedisCache_pop ft c key dflt s =
     (case RedisCache_get ft c key dflt s of
        (Inl e, s1) \<Rightarrow> (Inl e, s1)
      | (Inr val, s1) \<Rightarrow>
          (case RedisCache_delete c key s1 of
             (Inl e, s2) \<Rightarrow> (Inl e, s2)
           | (Inr _, s2) \<Rightarrow> (Inr val, s2)))"


definition RedisCache_increment ::
  "float_text \<Rightarrow> RedisCache \<Rightarrow> pyval \<Rightarrow> pyval \<Rightarrow> redis \<Rightarrow> pyval result" where
  "RedisCache_increment ft c key amount s =
     (case RedisCache_get ft c key PNone s of
        (Inl e, s1) \<Rightarrow> (Inl e, s1)
      | (Inr val, s1) \<Rightarrow>
          if val = PNone then (Inl KeyError, s1)
          else if isinstance_int val \<or> isinstance_float val then
            (case py_add val amount of
               Inl e \<Rightarrow> (Inl e, s1)
             | Inr val' \<Rightarrow>
                 (case RedisCache_set ft c key val' s1 of
                    (Inl e, s2) \<Rightarrow> (Inl e, s2)
                  | (Inr _, s2) \<Rightarrow> (Inr PNone, s2)))
          else (Inl TypeError, s1))"

definition RedisCache_decrement ::
  "float_text \<Rightarrow> RedisCache \<Rightarrow> pyval \<Rightarrow> pyval \<Rightarrow> redis \<Rightarrow> pyval result" where
  "RedisCache_decrement ft c key amount s =
     (case py_neg amount of
        Inl e \<Rightarrow> (Inl e, s)
      | Inr amount' \<Rightarrow>
          (case RedisCache_increment ft c key amount' s of
             (Inl e, s1) \<Rightarrow> (Inl e, s1)
           | (Inr _, s1) \<Rightarrow> (Inr PNone, s1)))"

section \<open>Notions the properties are stated with\<close>

fun supported_key :: "pyval \<Rightarrow> bool" where
  "supported_key (PStr _) = True"
| "supported_key (PInt _) = True"
| "supported_key _ = False"

fun supported_value :: "pyval \<Rightarrow> bool" where
  "supported_value PNone = False"
| "supported_value _ = True"

text \<open>
  The text of a float reads back as the float: the property of \<^verbatim>\<open>str\<close> and \<^verbatim>\<open>float\<close>
  that the codec relies on, asked of the value at hand only.
\<close>

fun reads_back :: "float_text \<Rightarrow> pyval \<Rightarrow> bool" where
  "reads_back ft (PFloat x) = (float_of_str ft (float_str ft x) = Some x)"
| "reads_back ft _ = True"

text \<open>
  The numbers of the specification: an integer or a float. A boolean is not one of them.
\<close>

fun is_number :: "pyval \<Rightarrow> bool" where
  "is_number (PInt _) = True"
| "is_number (PFloat _) = True"
| "is_number _ = False"

text \<open>A key is absent when it is a key the cache accepts and the hash has no field for it.\<close>

definition absent :: "RedisCache \<Rightarrow> redis \<Rightarrow> pyval \<Rightarrow> bool" where
  "absent c s key =
     (case key_to_typestring key of
        Inl _ \<Rightarrow> False
      | Inr k \<Rightarrow> hget s (namespace c) k = None)"

text \<open>
  A key is present with the stored value \<open>v\<close> when the hash has a field for it and the
  text in that field decodes to \<open>v\<close>.
\<close>

definition stored :: "float_text \<Rightarrow> RedisCache \<Rightarrow> redis \<Rightarrow> pyval \<Rightarrow> pyval \<Rightarrow> bool" where
  "stored ft c s key v =
     (case key_to_typestring key of
        Inl _ \<Rightarrow> False
      | Inr k \<Rightarrow>
          (case hget s (namespace c) k of
             None \<Rightarrow> False
           | Some t \<Rightarrow> value_from_typestring ft t = Inr v))"



text \<open>
  What CPython's \<^verbatim>\<open>str\<close> and \<^verbatim>\<open>float\<close> do on six floats, for the evaluations on
  concrete inputs; outside this table the record says nothing about Python.
\<close>

definition float_table :: "(pyfloat \<times> string) list" where
  "float_table =
     [(Finite False (2 ^ 52) (- 53), ''0.5''),
      (Finite False (3 * 2 ^ 51) (- 52), ''1.5''),
      (Finite False (5 * 2 ^ 50) (- 51), ''2.5''),
      (Finite False (2 ^ 52 + 1) (- 51), ''2.0000000000000004''),
      (Finite False (2 ^ 52) (- 50), ''4.0''),
      (Finite True (2 ^ 52) (- 52), ''-1.0'')]"

definition float_text_excerpt :: float_text where
  "float_text_excerpt =
     \<lparr>float_str = (\<lambda>x. case map_of float_table x of None \<Rightarrow> [] | Some t \<Rightarrow> t),
      float_of_str = (\<lambda>t. map_of (map (\<lambda>(x, t). (t, x)) float_table) t)\<rparr>"

section \<open>Integers and their decimal text\<close>

lemma digit_val_digit_char: "d < 10 \<Longrightarrow> digit_val (digit_char d) = Some d"
proof -
  assume "d < 10"
  then have "d \<in> {0, 1, 2, 3, 4, 5, 6, 7, 8, 9}"
    by auto
  then show ?thesis
    by (auto simp: digit_val_def digit_char_def)
qed

lemma digit_char_not_minus: "d < 10 \<Longrightarrow> digit_char d \<noteq> CHR ''-''"
proof -
  assume "d < 10"
  then have "d \<in> {0, 1, 2, 3, 4, 5, 6, 7, 8, 9}"
    by auto
  then show ?thesis
    by (auto simp: digit_char_def)
qed

lemma parse_digits_append:
  "parse_digits (xs @ ys) acc =
     (case parse_digits xs acc of None \<Rightarrow> None | Some a \<Rightarrow> parse_digits ys a)"
  by (induction xs arbitrary: acc) (auto split: option.splits)

lemma parse_digits_show_nat: "parse_digits (show_nat n) 0 = Some n"
proof (induction n rule: show_nat.induct)
  case (1 n)
  show ?case
  proof (cases "n < 10")
    case True
    then show ?thesis
      by (subst show_nat.simps) (simp add: digit_val_digit_char)
  next
    case False
    with 1 have "parse_digits (show_nat (n div 10)) 0 = Some (n div 10)"
      by simp
    with False show ?thesis
      by (subst show_nat.simps) (simp add: parse_digits_append digit_val_digit_char)
  qed
qed

lemma show_nat_not_Nil: "show_nat n \<noteq> []"
  by (subst show_nat.simps) simp

lemma hd_show_nat: "hd (show_nat n) \<noteq> CHR ''-''"
proof (induction n rule: show_nat.induct)
  case (1 n)
  show ?case
  proof (cases "n < 10")
    case True
    then show ?thesis
      by (subst show_nat.simps) (simp add: digit_char_not_minus)
  next
    case False
    with 1 have "hd (show_nat (n div 10)) \<noteq> CHR ''-''"
      by simp
    with False show ?thesis
      by (subst show_nat.simps) (simp add: show_nat_not_Nil)
  qed
qed

lemma parse_nat_show_nat: "parse_nat (show_nat n) = Some n"
  by (simp add: parse_nat_def show_nat_not_Nil parse_digits_show_nat)

lemma parse_int_show_int: "parse_int (show_int i) = Some i"
proof (cases "i < 0")
  case True
  then show ?thesis
    by (simp add: parse_int_def show_int_def parse_nat_show_nat)
next
  case False
  obtain c cs where cs: "show_nat (nat i) = c # cs"
    using show_nat_not_Nil [of "nat i"] by (cases "show_nat (nat i)") auto
  with hd_show_nat [of "nat i"] have "c \<noteq> CHR ''-''"
    by simp
  with False cs parse_nat_show_nat [of "nat i"] show ?thesis
    by (simp add: parse_int_def show_int_def)
qed

lemma show_nat_digit: "n < 10 \<Longrightarrow> show_nat n = [digit_char n]"
  by (subst show_nat.simps) simp

section \<open>The codec reads back what it writes\<close>

lemma strip_prefix_append: "strip_prefix p (p @ t) = Some t"
  by (induction p) simp_all

lemma key_from_typestring_roundtrip:
  "key_to_typestring k = Inr e \<Longrightarrow> key_from_typestring e = Inr k"
  by (cases k) (auto simp: key_from_typestring_def int_from_text_def parse_int_show_int)

lemma key_to_typestring_inject:
  "key_to_typestring k = Inr e \<Longrightarrow> key_to_typestring k' = Inr e \<Longrightarrow> k = k'"
  by (metis key_from_typestring_roundtrip sum.inject(2))

lemma key_to_typestring_supported:
  "supported_key k \<longleftrightarrow> (\<exists>e. key_to_typestring k = Inr e)"
  by (cases k) simp_all

lemma value_from_typestring_roundtrip:
  "value_to_typestring ft v = Inr e \<Longrightarrow> reads_back ft v \<Longrightarrow> value_from_typestring ft e = Inr v"
  by (cases v)
    (auto simp: value_from_typestring_def int_from_text_def float_from_text_def
      bool_from_text_def parse_int_show_int)

lemma value_to_typestring_supported:
  "supported_value v \<longleftrightarrow> (\<exists>e. value_to_typestring ft v = Inr e)"
  by (cases v) simp_all




section \<open>Floats\<close>

lemma bit_length_0: "bit_length 0 = 0"
  by (simp add: bit_length.simps)

lemma bit_length_pos: "0 < n \<Longrightarrow> bit_length n = Suc (bit_length (n div 2))"
  by (subst bit_length.simps) simp

lemma bit_length_lower: "2 ^ k \<le> n \<Longrightarrow> k < bit_length n"
proof (induction k arbitrary: n)
  case 0
  then show ?case
    by (simp add: bit_length_pos)
next
  case (Suc k)
  then have "2 ^ k \<le> n div 2"
    by simp
  then have "k < bit_length (n div 2)"
    by (rule Suc.IH)
  moreover from Suc.prems have "0 < n"
    by (metis gr0I not_less_eq_eq power_eq_0_iff zero_less_numeral le_zero_eq nat.simps(3) numeral_2_eq_2)
  ultimately show ?case
    by (simp add: bit_length_pos)
qed

lemma round_float_overflow:
  assumes "2 ^ 1024 \<le> n"
  shows "round_float s n 0 = Infinity s"
proof -
  from assms have "1024 < bit_length n"
    by (rule bit_length_lower)
  moreover from assms have "n \<noteq> 0"
    by auto
  ultimately show ?thesis
    by (auto simp: round_float_def Let_def)
qed

lemma float_of_int_overflow: "2 ^ 1024 \<le> \<bar>i\<bar> \<Longrightarrow> float_of_int i = None"
proof -
  assume "2 ^ 1024 \<le> \<bar>i\<bar>"
  then have "2 ^ 1024 \<le> nat \<bar>i\<bar>"
    by (simp add: le_nat_iff)
  then show ?thesis
    by (simp add: float_of_int_def round_float_overflow)
qed

lemmas float_eval =
  float_of_int_def round_float_def bit_length_0 bit_length_pos Let_def signed_mantissa_def

lemma float_of_int_1: "float_of_int 1 = Some (Finite False (2 ^ 52) (- 52))"
  by (simp add: float_eval)

lemma float_of_int_2: "float_of_int 2 = Some (Finite False (2 ^ 52) (- 51))"
  by (simp add: float_eval)

lemma float_of_int_minus_5: "float_of_int (- 5) = Some (Finite True (5 * 2 ^ 50) (- 50))"
  by (simp add: float_eval)

lemma float_add_1_half:
  "float_add (Finite False (2 ^ 52) (- 52)) (Finite False (2 ^ 52) (- 53))
     = Finite False (3 * 2 ^ 51) (- 52)"
  by (simp add: float_eval)

lemma float_add_rounds_to_4:
  "float_add (Finite False (2 ^ 52 + 1) (- 51)) (Finite False (2 ^ 52) (- 51))
     = Finite False (2 ^ 52) (- 50)"
  by (simp add: float_eval)

lemma float_add_4_minus_5:
  "float_add (Finite False (2 ^ 52) (- 50)) (Finite True (5 * 2 ^ 50) (- 50))
     = Finite True (2 ^ 52) (- 52)"
  by (simp add: float_eval)

lemma excerpt_reads_back:
  "reads_back float_text_excerpt (PFloat (Finite False (2 ^ 52) (- 53)))"
  "reads_back float_text_excerpt (PFloat (Finite False (3 * 2 ^ 51) (- 52)))"
  "reads_back float_text_excerpt (PFloat (Finite False (2 ^ 52 + 1) (- 51)))"
  "reads_back float_text_excerpt (PFloat (Finite False (2 ^ 52) (- 50)))"
  "reads_back float_text_excerpt (PFloat (Finite True (2 ^ 52) (- 52)))"
  by (simp_all add: float_text_excerpt_def float_table_def)

section \<open>Python's addition\<close>

lemma py_add_float_int:
  "float_of_int j = Some b \<Longrightarrow> py_add (PFloat a) (PInt j) = Inr (PFloat (float_add a b))"
  by (simp add: py_add_def)

lemma py_add_int_float:
  "py_add (PInt i) (PFloat a)
     = (case float_of_int i of None \<Rightarrow> Inl OverflowError | Some g \<Rightarrow> Inr (PFloat (float_add g a)))"
  by (simp add: py_add_def)

lemma py_add_int_int: "py_add (PInt i) (PInt j) = Inr (PInt (i + j))"
  by (simp add: py_add_def)

lemma py_add_number:
  "is_number v \<Longrightarrow> py_add v amount = Inr v' \<Longrightarrow> is_number v'"
  by (cases v; cases amount)
    (auto simp: py_add_def split: option.splits if_splits)

section \<open>The store\<close>

lemma no_hashes_apply: "no_hashes ns = []"
  by (simp add: no_hashes_def)

lemma no_hashes_upd_Nil: "no_hashes(ns := []) = no_hashes"
  by (simp add: no_hashes_def fun_eq_iff)

lemma hget_hset_same: "hget (hset s ns k v) ns k = Some v"
  by (simp add: hget_def hset_def update_conv')

lemma hget_hset_other: "k' \<noteq> k \<Longrightarrow> hget (hset s ns k v) ns k' = hget s ns k'"
  by (simp add: hget_def hset_def update_conv')

lemma hdel_absent: "hget s ns k = None \<Longrightarrow> hdel s ns k = (0, s)"
proof -
  assume a: "hget s ns k = None"
  then have "k \<notin> fst ` set (s ns)"
    by (simp add: hget_def map_of_eq_None_iff)
  then have "AList.delete k (s ns) = s ns"
    by simp
  with a show ?thesis
    by (simp add: hget_def hdel_def)
qed

lemma hexists_hdel: "hexists (snd (hdel s ns k)) ns k = False"
  by (simp add: hexists_def hdel_def delete_conv')

section \<open>Entries of the cache\<close>

lemma stored_after_set:
  assumes "supported_key key" and "supported_value v" and "reads_back ft v"
  shows "RedisCache_set ft c key v s
      = (Inr PNone, snd (RedisCache_set ft c key v s))
    \<and> stored ft c (snd (RedisCache_set ft c key v s)) key v"
proof -
  from assms(1) obtain k where k: "key_to_typestring key = Inr k"
    by (auto simp: key_to_typestring_supported)
  from assms(2) obtain t where t: "value_to_typestring ft v = Inr t"
    using value_to_typestring_supported by blast
  have "value_from_typestring ft t = Inr v"
    using t assms(3) by (rule value_from_typestring_roundtrip)
  with k t show ?thesis
    by (simp add: RedisCache_set_def stored_def hget_hset_same)
qed

lemma stored_supported_key: "stored ft c s key v \<Longrightarrow> supported_key key"
  by (auto simp: stored_def key_to_typestring_supported split: sum.splits)

lemma get_stored: "stored ft c s key v \<Longrightarrow> RedisCache_get ft c key dflt s = (Inr v, s)"
  by (auto simp: stored_def RedisCache_get_def split: sum.splits option.splits)

lemma stored_field:
  "key_to_typestring key = Inr k \<Longrightarrow> value_to_typestring ft v = Inr t \<Longrightarrow> reads_back ft v
     \<Longrightarrow> stored ft c (s(namespace c := [(k, t)])) key v"
  by (simp add: stored_def hget_def value_from_typestring_roundtrip)

lemma increment_absent:
  "absent c s key \<Longrightarrow> RedisCache_increment ft c key amount s = (Inl KeyError, s)"
  by (auto simp: absent_def RedisCache_increment_def RedisCache_get_def split: sum.splits)

lemma increment_number:
  assumes "stored ft c s key v" and "is_number v" and "py_add v amount = Inr v'"
  shows "RedisCache_increment ft c key amount s = RedisCache_set ft c key v' s
    \<and> fst (RedisCache_set ft c key v' s) = Inr PNone"
proof -
  have n: "is_number v'"
    using assms(2,3) by (rule py_add_number)
  from assms(1) obtain k where k: "key_to_typestring key = Inr k"
    by (auto simp: stored_def split: sum.splits)
  from n obtain t where t: "value_to_typestring ft v' = Inr t"
    by (cases v') auto
  have g: "RedisCache_get ft c key PNone s = (Inr v, s)"
    using assms(1) by (rule get_stored)
  have i: "v \<noteq> PNone" "isinstance_int v \<or> isinstance_float v"
    using assms(2) by (cases v; simp)+
  show ?thesis
    using g i assms(3) k t by (simp add: RedisCache_increment_def RedisCache_set_def)
qed

lemma increment_overflow:
  assumes "stored ft c s key v" and "is_number v" and "py_add v amount = Inl e"
  shows "RedisCache_increment ft c key amount s = (Inl e, s)"
proof -
  have g: "RedisCache_get ft c key PNone s = (Inr v, s)"
    using assms(1) by (rule get_stored)
  have i: "v \<noteq> PNone" "isinstance_int v \<or> isinstance_float v"
    using assms(2) by (cases v; simp)+
  show ?thesis
    using g i assms(3) by (simp add: RedisCache_increment_def)
qed

lemma increment_result:
  "fst (RedisCache_increment ft c key amount s) = Inr r \<Longrightarrow> r = PNone"
  by (auto simp: RedisCache_increment_def split: prod.splits sum.splits if_splits)

section \<open>Dictionaries\<close>







section \<open>Properties of the cache\<close>

text \<open>
  C1: after \<^verbatim>\<open>set(key, value)\<close> with a key and a value the cache supports, \<^verbatim>\<open>get(key)\<close>
  returns that value, of the type it had; and the integer 1 and the string "1", set
  under two different keys, read back as the integer and as the string.
\<close>

theorem set_then_get:
  assumes "supported_key key" and "supported_value v" and "reads_back ft v"
    and "supported_key k1" and "supported_key k2" and "k1 \<noteq> k2"
  shows "fst (RedisCache_set ft c key v s) = Inr PNone
    \<and> RedisCache_get ft c key dflt (snd (RedisCache_set ft c key v s))
        = (Inr v, snd (RedisCache_set ft c key v s))
    \<and> fst (RedisCache_get ft c k1 dflt
          (snd (RedisCache_set ft c k2 (PStr ''1'') (snd (RedisCache_set ft c k1 (PInt 1) s)))))
        = Inr (PInt 1)
    \<and> fst (RedisCache_get ft c k2 dflt
          (snd (RedisCache_set ft c k2 (PStr ''1'') (snd (RedisCache_set ft c k1 (PInt 1) s)))))
        = Inr (PStr ''1'')
    \<and> PInt 1 \<noteq> PStr ''1''"
proof -
  from assms(1) obtain e where e: "key_to_typestring key = Inr e"
    by (auto simp: key_to_typestring_supported)
  from assms(2) obtain t where t: "value_to_typestring ft v = Inr t"
    using value_to_typestring_supported by blast
  have dec: "value_from_typestring ft t = Inr v"
    using t assms(3) by (rule value_from_typestring_roundtrip)
  from assms(4) obtain e1 where e1: "key_to_typestring k1 = Inr e1"
    by (auto simp: key_to_typestring_supported)
  from assms(5) obtain e2 where e2: "key_to_typestring k2 = Inr e2"
    by (auto simp: key_to_typestring_supported)
  have ne: "e1 \<noteq> e2"
    using e1 e2 assms(6) key_to_typestring_inject by blast
  have d1: "value_from_typestring ft (''INT:'' @ show_int 1) = Inr (PInt 1)"
    by (rule value_from_typestring_roundtrip) simp_all
  have d2: "value_from_typestring ft (''STRING:'' @ ''1'') = Inr (PStr ''1'')"
    by (rule value_from_typestring_roundtrip) simp_all
  have one: "fst (RedisCache_set ft c key v s) = Inr PNone
    \<and> RedisCache_get ft c key dflt (snd (RedisCache_set ft c key v s))
        = (Inr v, snd (RedisCache_set ft c key v s))"
    using e t dec by (simp add: RedisCache_set_def RedisCache_get_def hget_hset_same)
  have two: "fst (RedisCache_get ft c k1 dflt
          (snd (RedisCache_set ft c k2 (PStr ''1'') (snd (RedisCache_set ft c k1 (PInt 1) s)))))
        = Inr (PInt 1)"
    using e1 e2 ne d1
    by (simp add: RedisCache_set_def RedisCache_get_def hget_hset_same hget_hset_other)
  have three: "fst (RedisCache_get ft c k2 dflt
          (snd (RedisCache_set ft c k2 (PStr ''1'') (snd (RedisCache_set ft c k1 (PInt 1) s)))))
        = Inr (PStr ''1'')"
    using e1 e2 d2
    by (simp add: RedisCache_set_def RedisCache_get_def hget_hset_same)
  from one two three show ?thesis
    by simp
qed

theorem set_then_get_witness:
  "supported_key (PStr ''ratio'') \<and> supported_value (PFloat (Finite False (5 * 2 ^ 50) (- 51)))
   \<and> reads_back float_text_excerpt (PFloat (Finite False (5 * 2 ^ 50) (- 51)))
   \<and> supported_key (PInt 1) \<and> supported_key (PStr ''1'') \<and> PInt 1 \<noteq> PStr ''1''
   \<and> RedisCache_get float_text_excerpt \<lparr>namespace = ''cache''\<rparr> (PStr ''ratio'') PNone
        (snd (RedisCache_set float_text_excerpt \<lparr>namespace = ''cache''\<rparr> (PStr ''ratio'')
           (PFloat (Finite False (5 * 2 ^ 50) (- 51))) no_hashes))
      = (Inr (PFloat (Finite False (5 * 2 ^ 50) (- 51))),
         no_hashes(''cache'' := [(''STRING:ratio'', ''FLOAT:2.5'')]))"
proof -
  have r: "reads_back float_text_excerpt (PFloat (Finite False (5 * 2 ^ 50) (- 51)))"
    by (simp add: float_text_excerpt_def float_table_def)
  have s: "snd (RedisCache_set float_text_excerpt \<lparr>namespace = ''cache''\<rparr> (PStr ''ratio'')
           (PFloat (Finite False (5 * 2 ^ 50) (- 51))) no_hashes)
      = no_hashes(''cache'' := [(''STRING:ratio'', ''FLOAT:2.5'')])"
    by (simp add: RedisCache_set_def hset_def no_hashes_def float_text_excerpt_def float_table_def)
  show ?thesis
    using r s set_then_get [of "PStr ''ratio''" "PFloat (Finite False (5 * 2 ^ 50) (- 51))"
        float_text_excerpt "PInt 1" "PStr ''1''" "\<lparr>namespace = ''cache''\<rparr>" no_hashes PNone]
    by simp
qed

text \<open>
  C2: \<^verbatim>\<open>increment\<close> is to fail with a TypeError, leaving the entry as it was, when the
  stored value is neither an integer nor a float, a stored boolean included. The test of
  the method is \<^verbatim>\<open>isinstance(value, int)\<close>, which holds for a boolean: on the entry that
  \<^verbatim>\<open>set("flag", True)\<close> writes, \<^verbatim>\<open>increment("flag", 1)\<close> raises nothing and
  overwrites the boolean with the integer 2. On a stored string it raises the TypeError
  and leaves the entry.
\<close>

theorem increment_accepts_stored_bool:
  "RedisCache_set float_text_excerpt \<lparr>namespace = ''cache''\<rparr> (PStr ''flag'') (PBool True) no_hashes
     = (Inr PNone, no_hashes(''cache'' := [(''STRING:flag'', ''BOOL:True'')]))
   \<and> RedisCache_get float_text_excerpt \<lparr>namespace = ''cache''\<rparr> (PStr ''flag'') PNone
        (no_hashes(''cache'' := [(''STRING:flag'', ''BOOL:True'')]))
     = (Inr (PBool True), no_hashes(''cache'' := [(''STRING:flag'', ''BOOL:True'')]))
   \<and> RedisCache_increment float_text_excerpt \<lparr>namespace = ''cache''\<rparr> (PStr ''flag'') (PInt 1)
        (no_hashes(''cache'' := [(''STRING:flag'', ''BOOL:True'')]))
     = (Inr PNone, no_hashes(''cache'' := [(''STRING:flag'', ''INT:2'')]))
   \<and> RedisCache_increment float_text_excerpt \<lparr>namespace = ''cache''\<rparr> (PStr ''name'') (PInt 1)
        (no_hashes(''cache'' := [(''STRING:name'', ''STRING:abc'')]))
     = (Inl TypeError, no_hashes(''cache'' := [(''STRING:name'', ''STRING:abc'')]))"
  by (simp add: RedisCache_set_def RedisCache_get_def RedisCache_increment_def hset_def hget_def
      value_from_typestring_def bool_from_text_def py_add_def show_int_def show_nat_digit
      digit_char_def no_hashes_apply)

text \<open>
  C3: \<^verbatim>\<open>increment\<close> on an absent key fails with KeyError and writes nothing; on a key
  that holds an integer or a float it writes back Python's sum of the stored value and
  the amount. As amended: that sum is exactly what \<^verbatim>\<open>set(key, value + amount)\<close> stores,
  whenever Python's \<^verbatim>\<open>value + amount\<close> is defined; and when the stored value is an
  integer, \<^verbatim>\<open>increment(key, 2)\<close> followed by \<^verbatim>\<open>increment(key, -5)\<close> leaves the stored
  number exactly 3 less than it was.
\<close>

theorem increment_absent_and_sum:
  "(absent c s key \<longrightarrow> RedisCache_increment ft c key amount s = (Inl KeyError, s))
   \<and> (stored ft c s key v \<and> is_number v \<and> py_add v amount = Inr v' \<longrightarrow>
         RedisCache_increment ft c key amount s = RedisCache_set ft c key v' s
         \<and> fst (RedisCache_set ft c key v' s) = Inr PNone
         \<and> (reads_back ft v' \<longrightarrow> stored ft c (snd (RedisCache_increment ft c key amount s)) key v'))
   \<and> (stored ft c s key (PInt i) \<longrightarrow>
         fst (RedisCache_increment ft c key (PInt 2) s) = Inr PNone
         \<and> fst (RedisCache_increment ft c key (PInt (- 5))
                  (snd (RedisCache_increment ft c key (PInt 2) s))) = Inr PNone
         \<and> stored ft c
              (snd (RedisCache_increment ft c key (PInt (- 5))
                 (snd (RedisCache_increment ft c key (PInt 2) s))))
              key (PInt (i - 3)))"
proof (intro conjI impI)
  assume "absent c s key"
  then show "RedisCache_increment ft c key amount s = (Inl KeyError, s)"
    by (rule increment_absent)
next
  assume a: "stored ft c s key v \<and> is_number v \<and> py_add v amount = Inr v'"
  then have inc: "RedisCache_increment ft c key amount s = RedisCache_set ft c key v' s
      \<and> fst (RedisCache_set ft c key v' s) = Inr PNone"
    using increment_number by blast
  from inc show "RedisCache_increment ft c key amount s = RedisCache_set ft c key v' s"
    by simp
  from inc show "fst (RedisCache_set ft c key v' s) = Inr PNone"
    by simp
  assume r: "reads_back ft v'"
  from a have "is_number v'"
    using py_add_number by blast
  then have "supported_value v'"
    by (cases v') simp_all
  moreover from a have "supported_key key"
    using stored_supported_key by blast
  ultimately have "stored ft c (snd (RedisCache_set ft c key v' s)) key v'"
    using r stored_after_set by blast
  with inc show "stored ft c (snd (RedisCache_increment ft c key amount s)) key v'"
    by simp
next
  assume st: "stored ft c s key (PInt i)"
  let ?s1 = "snd (RedisCache_increment ft c key (PInt 2) s)"
  let ?s2 = "snd (RedisCache_increment ft c key (PInt (- 5)) ?s1)"
  have k: "supported_key key"
    using st by (rule stored_supported_key)
  have i1: "RedisCache_increment ft c key (PInt 2) s = RedisCache_set ft c key (PInt (i + 2)) s"
    using increment_number [OF st, of "PInt 2" "PInt (i + 2)"] by (simp add: py_add_int_int)
  have s1: "RedisCache_set ft c key (PInt (i + 2)) s
        = (Inr PNone, snd (RedisCache_set ft c key (PInt (i + 2)) s))
      \<and> stored ft c (snd (RedisCache_set ft c key (PInt (i + 2)) s)) key (PInt (i + 2))"
    using k by (intro stored_after_set) simp_all
  from i1 s1 have st1: "stored ft c ?s1 key (PInt (i + 2))"
    by simp
  have i2: "RedisCache_increment ft c key (PInt (- 5)) ?s1
      = RedisCache_set ft c key (PInt (i - 3)) ?s1"
    using increment_number [OF st1, of "PInt (- 5)" "PInt (i - 3)"] by (simp add: py_add_int_int)
  have s2: "RedisCache_set ft c key (PInt (i - 3)) ?s1
        = (Inr PNone, snd (RedisCache_set ft c key (PInt (i - 3)) ?s1))
      \<and> stored ft c (snd (RedisCache_set ft c key (PInt (i - 3)) ?s1)) key (PInt (i - 3))"
    using k by (intro stored_after_set) simp_all
  from i1 s1 show "fst (RedisCache_increment ft c key (PInt 2) s) = Inr PNone"
    by (metis fst_conv)
  from i2 s2 show "fst (RedisCache_increment ft c key (PInt (- 5)) ?s1) = Inr PNone"
    by (metis fst_conv)
  from i2 s2 show "stored ft c ?s2 key (PInt (i - 3))"
    by simp
qed

theorem increment_absent_and_sum_witness:
  "absent \<lparr>namespace = ''cache''\<rparr> no_hashes (PStr ''missing'')
   \<and> RedisCache_increment float_text_excerpt \<lparr>namespace = ''cache''\<rparr> (PStr ''missing'') (PInt 1)
        no_hashes = (Inl KeyError, no_hashes)
   \<and> stored float_text_excerpt \<lparr>namespace = ''cache''\<rparr>
        (no_hashes(''cache'' := [(''STRING:hits'', ''INT:10'')])) (PStr ''hits'') (PInt 10)
   \<and> is_number (PInt 10) \<and> py_add (PInt 10) (PInt 2) = Inr (PInt 12)
   \<and> reads_back float_text_excerpt (PInt 12)
   \<and> RedisCache_increment float_text_excerpt \<lparr>namespace = ''cache''\<rparr> (PStr ''hits'') (PInt 2)
        (no_hashes(''cache'' := [(''STRING:hits'', ''INT:10'')]))
      = RedisCache_set float_text_excerpt \<lparr>namespace = ''cache''\<rparr> (PStr ''hits'') (PInt 12)
        (no_hashes(''cache'' := [(''STRING:hits'', ''INT:10'')]))
   \<and> stored float_text_excerpt \<lparr>namespace = ''cache''\<rparr>
        (snd (RedisCache_increment float_text_excerpt \<lparr>namespace = ''cache''\<rparr> (PStr ''hits'')
           (PInt (- 5))
           (snd (RedisCache_increment float_text_excerpt \<lparr>namespace = ''cache''\<rparr> (PStr ''hits'')
              (PInt 2) (no_hashes(''cache'' := [(''STRING:hits'', ''INT:10'')]))))))
        (PStr ''hits'') (PInt 7)"
proof -
  have a: "absent \<lparr>namespace = ''cache''\<rparr> no_hashes (PStr ''missing'')"
    by (simp add: absent_def hget_def no_hashes_apply)
  have s: "stored float_text_excerpt \<lparr>namespace = ''cache''\<rparr>
        (no_hashes(''cache'' := [(''STRING:hits'', ''INT:10'')])) (PStr ''hits'') (PInt 10)"
    by (simp add: stored_def hget_def value_from_typestring_def int_from_text_def parse_int_def
        parse_nat_def digit_val_def)
  have p: "py_add (PInt 10) (PInt 2) = Inr (PInt 12)"
    by (simp add: py_add_def)
  have n: "is_number (PInt 10)"
    by simp
  have r: "reads_back float_text_excerpt (PInt 12)"
    by simp
  note t1 = increment_absent_and_sum [of "\<lparr>namespace = ''cache''\<rparr>" no_hashes "PStr ''missing''"
        float_text_excerpt "PInt 1" PNone PNone 0]
  note t2 = increment_absent_and_sum [of "\<lparr>namespace = ''cache''\<rparr>"
        "no_hashes(''cache'' := [(''STRING:hits'', ''INT:10'')])" "PStr ''hits''"
        float_text_excerpt "PInt 2" "PInt 10" "PInt 12" 10]
  have c1: "RedisCache_increment float_text_excerpt \<lparr>namespace = ''cache''\<rparr> (PStr ''missing'') (PInt 1)
        no_hashes = (Inl KeyError, no_hashes)"
    using a t1 by blast
  have c2: "RedisCache_increment float_text_excerpt \<lparr>namespace = ''cache''\<rparr> (PStr ''hits'') (PInt 2)
        (no_hashes(''cache'' := [(''STRING:hits'', ''INT:10'')]))
      = RedisCache_set float_text_excerpt \<lparr>namespace = ''cache''\<rparr> (PStr ''hits'') (PInt 12)
        (no_hashes(''cache'' := [(''STRING:hits'', ''INT:10'')]))"
    using s n p t2 by blast
  have seven: "(10::int) - 3 = 7"
    by simp
  have c3: "stored float_text_excerpt \<lparr>namespace = ''cache''\<rparr>
        (snd (RedisCache_increment float_text_excerpt \<lparr>namespace = ''cache''\<rparr> (PStr ''hits'')
           (PInt (- 5))
           (snd (RedisCache_increment float_text_excerpt \<lparr>namespace = ''cache''\<rparr> (PStr ''hits'')
              (PInt 2) (no_hashes(''cache'' := [(''STRING:hits'', ''INT:10'')]))))))
        (PStr ''hits'') (PInt 7)"
    using s t2 unfolding seven by blast
  show ?thesis
    by (intro conjI a c1 s n p r c2 c3)
qed

text \<open>
  The sums are sums of floats and round. On the stored float 2.0000000000000004,
  \<^verbatim>\<open>increment(key, 2)\<close> stores 4.0, the sum rounded to even, and
  \<^verbatim>\<open>increment(key, -5)\<close> then stores -1.0, which is not 3 less than the number at the
  start.
\<close>

theorem increment_float_net_counterexample:
  "RedisCache_get float_text_excerpt \<lparr>namespace = ''cache''\<rparr> (PStr ''x'') PNone
      (no_hashes(''cache'' := [(''STRING:x'', ''FLOAT:2.0000000000000004'')]))
     = (Inr (PFloat (Finite False (2 ^ 52 + 1) (- 51))),
        no_hashes(''cache'' := [(''STRING:x'', ''FLOAT:2.0000000000000004'')]))
   \<and> RedisCache_increment float_text_excerpt \<lparr>namespace = ''cache''\<rparr> (PStr ''x'') (PInt 2)
      (no_hashes(''cache'' := [(''STRING:x'', ''FLOAT:2.0000000000000004'')]))
     = (Inr PNone, no_hashes(''cache'' := [(''STRING:x'', ''FLOAT:4.0'')]))
   \<and> RedisCache_increment float_text_excerpt \<lparr>namespace = ''cache''\<rparr> (PStr ''x'') (PInt (- 5))
      (no_hashes(''cache'' := [(''STRING:x'', ''FLOAT:4.0'')]))
     = (Inr PNone, no_hashes(''cache'' := [(''STRING:x'', ''FLOAT:-1.0'')]))
   \<and> RedisCache_get float_text_excerpt \<lparr>namespace = ''cache''\<rparr> (PStr ''x'') PNone
      (no_hashes(''cache'' := [(''STRING:x'', ''FLOAT:-1.0'')]))
     = (Inr (PFloat (Finite True (2 ^ 52) (- 52))),
        no_hashes(''cache'' := [(''STRING:x'', ''FLOAT:-1.0'')]))
   \<and> float_value (Finite False (2 ^ 52 + 1) (- 51)) = Some (2 + 1 / 2 ^ 51)
   \<and> float_value (Finite True (2 ^ 52) (- 52)) = Some (- 1)
   \<and> (- 1 :: rat) \<noteq> (2 + 1 / 2 ^ 51) - 3"
proof -
  let ?c = "\<lparr>namespace = ''cache''\<rparr>"
  let ?ft = float_text_excerpt
  let ?s0 = "no_hashes(''cache'' := [(''STRING:x'', ''FLOAT:2.0000000000000004'')])"
  let ?s1 = "no_hashes(''cache'' := [(''STRING:x'', ''FLOAT:4.0'')])"
  let ?s2 = "no_hashes(''cache'' := [(''STRING:x'', ''FLOAT:-1.0'')])"
  let ?x0 = "Finite False (2 ^ 52 + 1) (- 51)"
  let ?x1 = "Finite False (2 ^ 52) (- 50)"
  let ?x2 = "Finite True (2 ^ 52) (- 52)"
  have st0: "stored ?ft ?c ?s0 (PStr ''x'') (PFloat ?x0)"
    by (simp add: stored_def hget_def value_from_typestring_def float_from_text_def
        float_text_excerpt_def float_table_def)
  have st1: "stored ?ft ?c ?s1 (PStr ''x'') (PFloat ?x1)"
    by (simp add: stored_def hget_def value_from_typestring_def float_from_text_def
        float_text_excerpt_def float_table_def)
  have st2: "stored ?ft ?c ?s2 (PStr ''x'') (PFloat ?x2)"
    by (simp add: stored_def hget_def value_from_typestring_def float_from_text_def
        float_text_excerpt_def float_table_def)
  have p1: "py_add (PFloat ?x0) (PInt 2) = Inr (PFloat ?x1)"
    using py_add_float_int [OF float_of_int_2, of ?x0] by (simp only: float_add_rounds_to_4)
  have p2: "py_add (PFloat ?x1) (PInt (- 5)) = Inr (PFloat ?x2)"
    using py_add_float_int [OF float_of_int_minus_5, of ?x1] by (simp only: float_add_4_minus_5)
  have w1: "RedisCache_set ?ft ?c (PStr ''x'') (PFloat ?x1) ?s0 = (Inr PNone, ?s1)"
    by (simp add: RedisCache_set_def hset_def float_text_excerpt_def float_table_def)
  have w2: "RedisCache_set ?ft ?c (PStr ''x'') (PFloat ?x2) ?s1 = (Inr PNone, ?s2)"
    by (simp add: RedisCache_set_def hset_def float_text_excerpt_def float_table_def)
  have i1: "RedisCache_increment ?ft ?c (PStr ''x'') (PInt 2) ?s0 = (Inr PNone, ?s1)"
    using increment_number [OF st0 _ p1] w1 by simp
  have i2: "RedisCache_increment ?ft ?c (PStr ''x'') (PInt (- 5)) ?s1 = (Inr PNone, ?s2)"
    using increment_number [OF st1 _ p2] w2 by simp
  have g0: "RedisCache_get ?ft ?c (PStr ''x'') PNone ?s0 = (Inr (PFloat ?x0), ?s0)"
    using st0 by (rule get_stored)
  have g2: "RedisCache_get ?ft ?c (PStr ''x'') PNone ?s2 = (Inr (PFloat ?x2), ?s2)"
    using st2 by (rule get_stored)
  have v1: "float_value ?x0 = Some (2 + 1 / 2 ^ 51)"
    by simp
  have v2: "float_value ?x2 = Some (- 1)"
    by simp
  have v3: "(- 1 :: rat) \<noteq> (2 + 1 / 2 ^ 51) - 3"
    by simp
  show ?thesis
    by (intro conjI g0 i1 i2 g2 v1 v2 v3)
qed

text \<open>
  C4: \<^verbatim>\<open>delete(key)\<close> is declared to return nothing, and deleting an absent key raises
  nothing and changes nothing. The method returns the reply of \<^verbatim>\<open>hdel\<close>, the number of
  fields removed: 0 for an absent key, with the store unchanged, and 1 for a present one.
\<close>

theorem delete_returns_hdel_reply:
  "RedisCache_delete \<lparr>namespace = ''cache''\<rparr> (PStr ''k'') no_hashes = (Inr (PInt 0), no_hashes)
   \<and> RedisCache_delete \<lparr>namespace = ''cache''\<rparr> (PStr ''k'')
        (no_hashes(''cache'' := [(''STRING:k'', ''INT:1'')]))
      = (Inr (PInt 1), no_hashes)
   \<and> PInt 0 \<noteq> PNone \<and> PInt 1 \<noteq> PNone"
  by (simp add: RedisCache_delete_def hdel_def no_hashes_apply no_hashes_upd_Nil)

text \<open>
  C5: for a key present in the namespace, \<^verbatim>\<open>pop(key, default)\<close> returns the decoded
  stored value and \<^verbatim>\<open>contains(key)\<close> is false afterwards; for an absent key it returns
  the default and leaves the store as it was.
\<close>

theorem pop_present_and_absent:
  "(stored ft c s key v \<longrightarrow>
      fst (RedisCache_pop ft c key dflt s) = Inr v
      \<and> RedisCache_contains c key (snd (RedisCache_pop ft c key dflt s))
          = (Inr (PBool False), snd (RedisCache_pop ft c key dflt s)))
   \<and> (absent c s key \<longrightarrow> RedisCache_pop ft c key dflt s = (Inr dflt, s))"
proof (intro conjI impI)
  assume a: "absent c s key"
  then obtain k where k: "key_to_typestring key = Inr k" and n: "hget s (namespace c) k = None"
    by (auto simp: absent_def split: sum.splits)
  then show "RedisCache_pop ft c key dflt s = (Inr dflt, s)"
    by (simp add: RedisCache_pop_def RedisCache_get_def RedisCache_delete_def hdel_absent)
next
  assume p: "stored ft c s key v"
  then obtain k t where k: "key_to_typestring key = Inr k"
    and t: "hget s (namespace c) k = Some t" and v: "value_from_typestring ft t = Inr v"
    by (auto simp: stored_def split: sum.splits option.splits)
  have pop: "RedisCache_pop ft c key dflt s = (Inr v, snd (hdel s (namespace c) k))"
    using k t v
    by (simp add: RedisCache_pop_def RedisCache_get_def RedisCache_delete_def split: prod.splits)
  show "fst (RedisCache_pop ft c key dflt s) = Inr v"
    by (simp add: pop)
  show "RedisCache_contains c key (snd (RedisCache_pop ft c key dflt s))
          = (Inr (PBool False), snd (RedisCache_pop ft c key dflt s))"
    using k by (simp add: pop RedisCache_contains_def hexists_hdel)
qed

theorem pop_present_and_absent_witness:
  "stored float_text_excerpt \<lparr>namespace = ''cache''\<rparr>
     (no_hashes(''cache'' := [(''STRING:k'', ''BOOL:True'')])) (PStr ''k'') (PBool True)
   \<and> RedisCache_pop float_text_excerpt \<lparr>namespace = ''cache''\<rparr> (PStr ''k'') PNone
        (no_hashes(''cache'' := [(''STRING:k'', ''BOOL:True'')]))
      = (Inr (PBool True), no_hashes)
   \<and> RedisCache_contains \<lparr>namespace = ''cache''\<rparr> (PStr ''k'') no_hashes
      = (Inr (PBool False), no_hashes)
   \<and> absent \<lparr>namespace = ''cache''\<rparr> no_hashes (PInt 5)
   \<and> RedisCache_pop float_text_excerpt \<lparr>namespace = ''cache''\<rparr> (PInt 5) (PStr ''none'') no_hashes
      = (Inr (PStr ''none''), no_hashes)"
proof -
  have p: "stored float_text_excerpt \<lparr>namespace = ''cache''\<rparr>
     (no_hashes(''cache'' := [(''STRING:k'', ''BOOL:True'')])) (PStr ''k'') (PBool True)"
    by (simp add: stored_def hget_def value_from_typestring_def bool_from_text_def)
  have a: "absent \<lparr>namespace = ''cache''\<rparr> no_hashes (PInt 5)"
    by (simp add: absent_def hget_def no_hashes_apply)
  have s: "snd (RedisCache_pop float_text_excerpt \<lparr>namespace = ''cache''\<rparr> (PStr ''k'') PNone
        (no_hashes(''cache'' := [(''STRING:k'', ''BOOL:True'')]))) = no_hashes"
    by (simp add: RedisCache_pop_def RedisCache_get_def RedisCache_delete_def hget_def hdel_def
        value_from_typestring_def bool_from_text_def no_hashes_apply no_hashes_upd_Nil)
  show ?thesis
    using p a s
      pop_present_and_absent [of float_text_excerpt "\<lparr>namespace = ''cache''\<rparr>"
        "no_hashes(''cache'' := [(''STRING:k'', ''BOOL:True'')])" "PStr ''k''" "PBool True" PNone]
      pop_present_and_absent [of float_text_excerpt "\<lparr>namespace = ''cache''\<rparr>"
        no_hashes "PInt 5" PNone "PStr ''none''"]
    by (simp add: prod_eq_iff)
qed

text \<open>
  C6: for a key absent from the namespace, \<^verbatim>\<open>get(key, default)\<close> returns the default it
  was given and raises nothing, and \<^verbatim>\<open>get(key)\<close>, whose default is \<^verbatim>\<open>None\<close>, returns
  \<^verbatim>\<open>None\<close>; the store is left as it was.
\<close>

theorem get_absent_returns_default:
  assumes "absent c s key"
  shows "RedisCache_get ft c key dflt s = (Inr dflt, s)
    \<and> RedisCache_get ft c key PNone s = (Inr PNone, s)"
  using assms by (auto simp: absent_def RedisCache_get_def split: sum.splits)

theorem get_absent_returns_default_witness:
  "absent \<lparr>namespace = ''cache''\<rparr> (no_hashes(''cache'' := [(''STRING:a'', ''INT:1'')])) (PStr ''b'')
   \<and> RedisCache_get float_text_excerpt \<lparr>namespace = ''cache''\<rparr> (PStr ''b'') (PInt 7)
        (no_hashes(''cache'' := [(''STRING:a'', ''INT:1'')]))
      = (Inr (PInt 7), no_hashes(''cache'' := [(''STRING:a'', ''INT:1'')]))
   \<and> RedisCache_get float_text_excerpt \<lparr>namespace = ''cache''\<rparr> (PStr ''b'') PNone
        (no_hashes(''cache'' := [(''STRING:a'', ''INT:1'')]))
      = (Inr PNone, no_hashes(''cache'' := [(''STRING:a'', ''INT:1'')]))"
proof -
  have a: "absent \<lparr>namespace = ''cache''\<rparr> (no_hashes(''cache'' := [(''STRING:a'', ''INT:1'')])) (PStr ''b'')"
    by (simp add: absent_def hget_def)
  show ?thesis
    using a get_absent_returns_default [OF a, of float_text_excerpt "PInt 7"] by simp
qed

text \<open>
  C7: for a numeric amount, \<^verbatim>\<open>decrement(key, amount)\<close> does what
  \<^verbatim>\<open>increment(key, -amount)\<close> does: the same value or exception, the same store.
\<close>

theorem decrement_is_increment_of_negation:
  assumes "as_num amount = Some n"
  shows "RedisCache_decrement ft c key amount s = RedisCache_increment ft c key (num_neg n) s"
proof (cases "RedisCache_increment ft c key (num_neg n) s")
  case (Pair r s1)
  show ?thesis
  proof (cases r)
    case (Inl e)
    with Pair assms show ?thesis
      by (simp add: RedisCache_decrement_def py_neg_def)
  next
    case (Inr x)
    with Pair have "x = PNone"
      using increment_result [of ft c key "num_neg n" s x] by simp
    with Inr Pair assms show ?thesis
      by (simp add: RedisCache_decrement_def py_neg_def)
  qed
qed

theorem decrement_is_increment_of_negation_witness:
  "as_num (PInt 3) = Some (NInt 3)
   \<and> RedisCache_decrement float_text_excerpt \<lparr>namespace = ''cache''\<rparr> (PStr ''hits'') (PInt 3)
        (no_hashes(''cache'' := [(''STRING:hits'', ''INT:10'')]))
      = RedisCache_increment float_text_excerpt \<lparr>namespace = ''cache''\<rparr> (PStr ''hits'') (PInt (- 3))
        (no_hashes(''cache'' := [(''STRING:hits'', ''INT:10'')]))
   \<and> RedisCache_increment float_text_excerpt \<lparr>namespace = ''cache''\<rparr> (PStr ''hits'') (PInt (- 3))
        (no_hashes(''cache'' := [(''STRING:hits'', ''INT:10'')]))
      = (Inr PNone, no_hashes(''cache'' := [(''STRING:hits'', ''INT:7'')]))"
proof -
  have i: "RedisCache_increment float_text_excerpt \<lparr>namespace = ''cache''\<rparr> (PStr ''hits'') (PInt (- 3))
        (no_hashes(''cache'' := [(''STRING:hits'', ''INT:10'')]))
      = (Inr PNone, no_hashes(''cache'' := [(''STRING:hits'', ''INT:7'')]))"
    by (simp add: RedisCache_set_def RedisCache_get_def RedisCache_increment_def hset_def hget_def
      value_from_typestring_def int_from_text_def parse_int_def parse_nat_def digit_val_def
      py_add_def show_int_def show_nat_digit digit_char_def no_hashes_apply)
  show ?thesis
    using i decrement_is_increment_of_negation [of "PInt 3" "NInt 3" float_text_excerpt
        "\<lparr>namespace = ''cache''\<rparr>" "PStr ''hits''"
        "no_hashes(''cache'' := [(''STRING:hits'', ''INT:10'')])"]
    by simp
qed



text \<open>
  C10: \<^verbatim>\<open>increment\<close> of a stored integer by a float amount writes back a float, so
  that \<^verbatim>\<open>get\<close> returns a float afterwards. As amended: when Python can convert the
  stored integer to a float, the sum of that float and the amount is written back and
  read as a float; when it cannot, the integer being too large, \<^verbatim>\<open>increment\<close> raises
  OverflowError and the stored integer stays.
\<close>

theorem increment_int_by_float:
  "(stored ft c s key (PInt i) \<and> float_of_int i = Some g
      \<and> reads_back ft (PFloat (float_add g a)) \<longrightarrow>
        fst (RedisCache_increment ft c key (PFloat a) s) = Inr PNone
        \<and> RedisCache_get ft c key dflt (snd (RedisCache_increment ft c key (PFloat a) s))
            = (Inr (PFloat (float_add g a)), snd (RedisCache_increment ft c key (PFloat a) s)))
   \<and> (stored ft c s key (PInt i) \<and> float_of_int i = None \<longrightarrow>
        RedisCache_increment ft c key (PFloat a) s = (Inl OverflowError, s))"
proof (intro conjI impI)
  assume a: "stored ft c s key (PInt i) \<and> float_of_int i = None"
  then have "py_add (PInt i) (PFloat a) = Inl OverflowError"
    by (simp add: py_add_int_float)
  with a show "RedisCache_increment ft c key (PFloat a) s = (Inl OverflowError, s)"
    using increment_overflow [of ft c s key "PInt i" "PFloat a" OverflowError] by simp
next
  assume a: "stored ft c s key (PInt i) \<and> float_of_int i = Some g
      \<and> reads_back ft (PFloat (float_add g a))"
  let ?y = "PFloat (float_add g a)"
  from a have p: "py_add (PInt i) (PFloat a) = Inr ?y"
    by (simp add: py_add_int_float)
  have inc: "RedisCache_increment ft c key (PFloat a) s = RedisCache_set ft c key ?y s"
    using a p increment_number [of ft c s key "PInt i" "PFloat a" ?y] by simp
  have k: "supported_key key"
    using a stored_supported_key by blast
  have st: "RedisCache_set ft c key ?y s = (Inr PNone, snd (RedisCache_set ft c key ?y s))
      \<and> stored ft c (snd (RedisCache_set ft c key ?y s)) key ?y"
    using k a by (intro stored_after_set) simp_all
  from inc st show "fst (RedisCache_increment ft c key (PFloat a) s) = Inr PNone"
    by (metis fst_conv)
  from inc st
  show "RedisCache_get ft c key dflt (snd (RedisCache_increment ft c key (PFloat a) s))
      = (Inr ?y, snd (RedisCache_increment ft c key (PFloat a) s))"
    by (simp add: get_stored)
qed

theorem increment_int_by_float_witness:
  "stored float_text_excerpt \<lparr>namespace = ''cache''\<rparr>
      (no_hashes(''cache'' := [(''STRING:n'', ''INT:1'')])) (PStr ''n'') (PInt 1)
   \<and> float_of_int 1 = Some (Finite False (2 ^ 52) (- 52))
   \<and> reads_back float_text_excerpt
        (PFloat (float_add (Finite False (2 ^ 52) (- 52)) (Finite False (2 ^ 52) (- 53))))
   \<and> RedisCache_get float_text_excerpt \<lparr>namespace = ''cache''\<rparr> (PStr ''n'') PNone
        (snd (RedisCache_increment float_text_excerpt \<lparr>namespace = ''cache''\<rparr> (PStr ''n'')
           (PFloat (Finite False (2 ^ 52) (- 53)))
           (no_hashes(''cache'' := [(''STRING:n'', ''INT:1'')]))))
      = (Inr (PFloat (Finite False (3 * 2 ^ 51) (- 52))),
         snd (RedisCache_increment float_text_excerpt \<lparr>namespace = ''cache''\<rparr> (PStr ''n'')
           (PFloat (Finite False (2 ^ 52) (- 53)))
           (no_hashes(''cache'' := [(''STRING:n'', ''INT:1'')]))))
   \<and> stored float_text_excerpt \<lparr>namespace = ''cache''\<rparr>
        (no_hashes(''cache'' := [(''STRING:n'', ''INT:'' @ show_int (2 ^ 1024))])) (PStr ''n'')
        (PInt (2 ^ 1024))
   \<and> float_of_int (2 ^ 1024) = None
   \<and> RedisCache_increment float_text_excerpt \<lparr>namespace = ''cache''\<rparr> (PStr ''n'')
        (PFloat (Finite False (2 ^ 52) (- 53)))
        (no_hashes(''cache'' := [(''STRING:n'', ''INT:'' @ show_int (2 ^ 1024))]))
      = (Inl OverflowError, no_hashes(''cache'' := [(''STRING:n'', ''INT:'' @ show_int (2 ^ 1024))]))"
proof -
  let ?c = "\<lparr>namespace = ''cache''\<rparr>"
  let ?ft = float_text_excerpt
  let ?half = "Finite False (2 ^ 52) (- 53)"
  let ?sa = "no_hashes(''cache'' := [(''STRING:n'', ''INT:1'')])"
  let ?sb = "no_hashes(''cache'' := [(''STRING:n'', ''INT:'' @ show_int (2 ^ 1024))])"
  have sa: "stored ?ft ?c ?sa (PStr ''n'') (PInt 1)"
    by (simp add: stored_def hget_def value_from_typestring_def int_from_text_def parse_int_def
        parse_nat_def digit_val_def)
  have sum: "float_add (Finite False (2 ^ 52) (- 52)) ?half = Finite False (3 * 2 ^ 51) (- 52)"
    by (rule float_add_1_half)
  have rb: "reads_back ?ft (PFloat (float_add (Finite False (2 ^ 52) (- 52)) ?half))"
    by (simp only: sum excerpt_reads_back)
  have sb: "stored ?ft ?c ?sb (PStr ''n'') (PInt (2 ^ 1024))"
    using stored_field [of "PStr ''n''" "''STRING:n''" ?ft "PInt (2 ^ 1024)"
        "''INT:'' @ show_int (2 ^ 1024)" ?c no_hashes]
    by simp
  have ov: "float_of_int (2 ^ 1024) = None"
    by (rule float_of_int_overflow) simp
  from increment_int_by_float [of ?ft ?c ?sa "PStr ''n''" 1 "Finite False (2 ^ 52) (- 52)" ?half PNone]
    sa float_of_int_1 rb
  have one: "RedisCache_get ?ft ?c (PStr ''n'') PNone
        (snd (RedisCache_increment ?ft ?c (PStr ''n'') (PFloat ?half) ?sa))
      = (Inr (PFloat (float_add (Finite False (2 ^ 52) (- 52)) ?half)),
         snd (RedisCache_increment ?ft ?c (PStr ''n'') (PFloat ?half) ?sa))"
    by blast
  from increment_int_by_float [of ?ft ?c ?sb "PStr ''n''" "2 ^ 1024" undefined ?half PNone] sb ov
  have two: "RedisCache_increment ?ft ?c (PStr ''n'') (PFloat ?half) ?sb = (Inl OverflowError, ?sb)"
    by blast
  from one have one': "RedisCache_get ?ft ?c (PStr ''n'') PNone
        (snd (RedisCache_increment ?ft ?c (PStr ''n'') (PFloat ?half) ?sa))
      = (Inr (PFloat (Finite False (3 * 2 ^ 51) (- 52))),
         snd (RedisCache_increment ?ft ?c (PStr ''n'') (PFloat ?half) ?sa))"
    by (simp only: sum)
  show ?thesis
    by (intro conjI sa float_of_int_1 rb one' sb ov two)
qed

text \<open>
  The integer \<open>2\<^sup>1\<^sup>0\<^sup>2\<^sup>4\<close> is too large for a float: incrementing it by 0.5 raises
  OverflowError and the entry still holds the integer.
\<close>

theorem increment_large_int_counterexample:
  "RedisCache_get float_text_excerpt \<lparr>namespace = ''cache''\<rparr> (PStr ''n'') PNone
      (no_hashes(''cache'' := [(''STRING:n'', ''INT:'' @ show_int (2 ^ 1024))]))
     = (Inr (PInt (2 ^ 1024)),
        no_hashes(''cache'' := [(''STRING:n'', ''INT:'' @ show_int (2 ^ 1024))]))
   \<and> RedisCache_increment float_text_excerpt \<lparr>namespace = ''cache''\<rparr> (PStr ''n'')
        (PFloat (Finite False (2 ^ 52) (- 53)))
        (no_hashes(''cache'' := [(''STRING:n'', ''INT:'' @ show_int (2 ^ 1024))]))
     = (Inl OverflowError, no_hashes(''cache'' := [(''STRING:n'', ''INT:'' @ show_int (2 ^ 1024))]))"
proof -
  let ?c = "\<lparr>namespace = ''cache''\<rparr>"
  let ?ft = float_text_excerpt
  let ?sb = "no_hashes(''cache'' := [(''STRING:n'', ''INT:'' @ show_int (2 ^ 1024))])"
  have sb: "stored ?ft ?c ?sb (PStr ''n'') (PInt (2 ^ 1024))"
    using stored_field [of "PStr ''n''" "''STRING:n''" ?ft "PInt (2 ^ 1024)"
        "''INT:'' @ show_int (2 ^ 1024)" ?c no_hashes]
    by simp
  have ov: "float_of_int (2 ^ 1024) = None"
    by (rule float_of_int_overflow) simp
  have p: "py_add (PInt (2 ^ 1024)) (PFloat (Finite False (2 ^ 52) (- 53))) = Inl OverflowError"
    by (simp only: py_add_int_float ov option.case)
  have g: "RedisCache_get ?ft ?c (PStr ''n'') PNone ?sb = (Inr (PInt (2 ^ 1024)), ?sb)"
    using sb by (rule get_stored)
  have i: "RedisCache_increment ?ft ?c (PStr ''n'') (PFloat (Finite False (2 ^ 52) (- 53))) ?sb
      = (Inl OverflowError, ?sb)"
    using sb _ p by (rule increment_overflow) simp
  show ?thesis
    by (intro conjI g i)
qed

end
